theory Spec2Isabelle
  imports Main "HOL-Library.Word"
begin

section \<open>The handle bridge of \<open>PortalScene_JNI.h\<close>\<close>

text \<open>
  The header defines two inline functions in namespace \<open>PortalScene\<close>:
  \<^verbatim>\<open>
  inline VRO_REF jptr(std::shared_ptr<VROPortal> shared_portal) {
      PersistentRef<VROPortal> *native_portal = new PersistentRef<VROPortal>(shared_portal);
      return reinterpret_cast<intptr_t>(native_portal);
  }

  inline std::shared_ptr<VROPortal> native(VRO_REF ptr) {
      PersistentRef<VROPortal> *persistentPortal = reinterpret_cast<PersistentRef<VROPortal> *>(ptr);
      return persistentPortal->get();
  }
  \<close>
  Both work on the free store and on the control blocks of the shared pointers, so the
  model passes an explicit state: the live \<open>PersistentRef\<close> objects by address, and the
  use count of every portal.
\<close>

subsection \<open>Data\<close>

text \<open>
  A portal is known to this header by identity only. A \<open>std::shared_ptr<VROPortal>\<close> is
  either empty or refers to one portal.
\<close>

type_synonym VROPortal = nat

type_synonym shared_ptr = "VROPortal option"

text \<open>
  Modelled from the spec: the class template \<open>PersistentRef\<close> is declared in
  \<open>PersistentRef.h\<close>, which the header includes and which is not among the sources at
  hand. The specification describes it as the Ownership Holder, "a durable wrapper
  created by the Bridge that holds one shared-ownership reference to a Scene Object".
\<close>

datatype persistent_ref = PersistentRef (persistentPtr: shared_ptr)

text \<open>
  The two ways in which a call does not return a value: \<open>operator new\<close> has no memory
  left (\<open>std::bad_alloc\<close>, which neither function catches), and a pointer is
  dereferenced at which no \<open>PersistentRef\<close> lives (undefined behaviour in C++; the model
  gives it a name instead of a result).
\<close>

datatype error = bad_alloc | undefined_behaviour

record 'a world =
  heap :: "'a \<rightharpoonup> persistent_ref"
  use_count :: "VROPortal \<Rightarrow> nat"

text \<open>A portal is destroyed when its use count reaches zero.\<close>

definition alive :: "'a world \<Rightarrow> VROPortal \<Rightarrow> bool" where
  "alive s x \<longleftrightarrow> 0 < use_count s x"

subsection \<open>The shared pointer\<close>

text \<open>
  Copy construction of a \<open>std::shared_ptr\<close> adds one to the use count of the portal it
  refers to; an empty pointer has no control block and nothing is counted. Its
  destructor takes one away. (On \<open>nat\<close> the subtraction stops at zero; a pointer that
  exists has been counted, so that case does not arise for a pointer that was copied
  in this state.)
\<close>

definition shared_ptr_copy :: "shared_ptr \<Rightarrow> 'a world \<Rightarrow> 'a world" where
  "shared_ptr_copy sp s =
     (case sp of
        None \<Rightarrow> s
      | Some x \<Rightarrow> s\<lparr>use_count := (use_count s)(x := use_count s x + 1)\<rparr>)"

definition shared_ptr_destroy :: "shared_ptr \<Rightarrow> 'a world \<Rightarrow> 'a world" where
  "shared_ptr_destroy sp s =
     (case sp of
        None \<Rightarrow> s
      | Some x \<Rightarrow> s\<lparr>use_count := (use_count s)(x := use_count s x - 1)\<rparr>)"

subsection \<open>The free store\<close>

text \<open>
  \<open>operator new\<close> belongs to the C++ runtime. It is a parameter of the model: a function
  from the live holders to the address of the new one, or \<open>None\<close> when memory is
  exhausted (\<open>std::bad_alloc\<close>). What the language promises of it is that the address
  it returns is not null and is not the address of a live object; the address of a
  holder that has been released may be handed out again.
\<close>

type_synonym 'a allocator = "('a \<rightharpoonup> persistent_ref) \<Rightarrow> 'a option"

definition operator_new_ok :: "('p::len) word allocator \<Rightarrow> bool" where
  "operator_new_ok new \<longleftrightarrow> (\<forall>h a. new h = Some a \<longrightarrow> a \<noteq> 0 \<and> h a = None)"

text \<open>
  A concrete allocator, used to run the model: the first free slot of a fixed arena,
  and failure when every slot is taken.
\<close>

definition arena_new :: "('p::len) word list \<Rightarrow> 'p word allocator" where
  "arena_new slots h = find (\<lambda>a. a \<noteq> 0 \<and> h a = None) slots"

subsection \<open>The two conversions\<close>

text \<open>
  Modelled from the spec: the constructor of \<open>PersistentRef\<close> is in \<open>PersistentRef.h\<close>.
  For the expression \<open>new PersistentRef<VROPortal>(shared_portal)\<close> the specification
  says that it "allocates a new Ownership Holder that takes (copies) the
  shared-ownership reference, incrementing the shared reference count": one
  allocation, and the new holder stores a copy of the shared pointer. When
  \<open>operator new\<close> fails nothing has been constructed. (The by-value parameter
  \<open>shared_portal\<close> of \<open>jptr\<close> is itself a copy that the caller makes before the call and
  destroys after it; the two cancel and are not part of the body.)
\<close>

definition new_PersistentRef ::
  "'a allocator \<Rightarrow> shared_ptr \<Rightarrow> 'a world \<Rightarrow> error + ('a \<times> 'a world)" where
  "new_PersistentRef new ptr s =
     (case new (heap s) of
        None \<Rightarrow> Inl bad_alloc
      | Some a \<Rightarrow> Inr (a, shared_ptr_copy ptr (s\<lparr>heap := (heap s)(a \<mapsto> PersistentRef ptr)\<rparr>)))"

text \<open>
  \<open>VRO_REF\<close> is a macro of \<open>VRODefines.h\<close>, which is not at hand; it is an integer type
  of some width \<open>'r\<close>, and pointers (hence \<open>intptr_t\<close>) have some width \<open>'p\<close>.
  \<open>reinterpret_cast<intptr_t>\<close> keeps the bits of the pointer. The \<open>return\<close> converts the
  signed \<open>intptr_t\<close> to \<open>VRO_REF\<close>: sign extension when \<open>VRO_REF\<close> is wider, truncation
  when it is narrower, which is \<open>scast\<close>.
\<close>

definition jptr ::
  "('p::len) word allocator \<Rightarrow> shared_ptr \<Rightarrow> 'p word world
     \<Rightarrow> error + (('r::len) word \<times> 'p word world)" where
  "jptr new shared_portal s =
     (case new_PersistentRef new shared_portal s of
        Inl e \<Rightarrow> Inl e
      | Inr (native_portal, s') \<Rightarrow> Inr (scast native_portal, s'))"

text \<open>
  Modelled from the spec: \<open>get\<close> is a member of \<open>PersistentRef\<close>, in \<open>PersistentRef.h\<close>.
  For \<open>persistentPortal->get()\<close> the specification says that it "copies out its held
  shared-ownership reference (incrementing the reference count again for the returned
  copy)": the holder at that address hands out a copy of its shared pointer and is not
  written itself. Where no holder lives at the address the call has undefined
  behaviour.
\<close>

definition PersistentRef_get ::
  "'a \<Rightarrow> 'a world \<Rightarrow> error + (shared_ptr \<times> 'a world)" where
  "PersistentRef_get this s =
     (case heap s this of
        None \<Rightarrow> Inl undefined_behaviour
      | Some r \<Rightarrow> Inr (persistentPtr r, shared_ptr_copy (persistentPtr r) s))"

text \<open>
  \<open>reinterpret_cast<PersistentRef<VROPortal> *>(ptr)\<close> keeps the low bits of the integer
  when the pointer is not wider than \<open>VRO_REF\<close>, which is \<open>ucast\<close>. The theorems below
  about handles are stated for such targets, \<open>LENGTH('p) \<le> LENGTH('r)\<close>.
\<close>

definition native ::
  "('r::len) word \<Rightarrow> ('p::len) word world \<Rightarrow> error + (shared_ptr \<times> 'p word world)" where
  "native ptr s =
     (let persistentPortal = ucast ptr
      in PersistentRef_get persistentPortal s)"

subsection \<open>Callers\<close>

text \<open>
  Modelled from the spec: the release operation is not in this header ("Release
  collaborator (not in this fragment): must exist as a paired operation that, given an
  Opaque Handle, destroys the corresponding Ownership Holder, decrementing the Scene
  Object's shared reference count").
\<close>

definition release ::
  "('r::len) word \<Rightarrow> ('p::len) word world \<Rightarrow> error + 'p word world" where
  "release ptr s =
     (let persistentPortal = ucast ptr
      in case heap s persistentPortal of
           None \<Rightarrow> Inl undefined_behaviour
         | Some r \<Rightarrow>
             Inr (shared_ptr_destroy (persistentPtr r)
                    (s\<lparr>heap := (heap s)(persistentPortal := None)\<rparr>)))"

text \<open>
  A sequence of calls into the bridge, each result dropped on the floor: the handles
  are not released and the returned pointers are not destroyed.
\<close>

datatype 'h bridge_call = Wrap shared_ptr | Unwrap 'h

fun bridge_step ::
  "('p::len) word allocator \<Rightarrow> ('r::len) word bridge_call \<Rightarrow> 'p word world
     \<Rightarrow> error + 'p word world" where
  "bridge_step new (Wrap sp) s =
     (case (jptr new sp s :: error + ('r word \<times> 'p word world)) of
        Inl e \<Rightarrow> Inl e
      | Inr (h, s') \<Rightarrow> Inr s')"
| "bridge_step new (Unwrap h) s =
     (case native h s of
        Inl e \<Rightarrow> Inl e
      | Inr (sp, s') \<Rightarrow> Inr s')"

fun bridge_run ::
  "('p::len) word allocator \<Rightarrow> ('r::len) word bridge_call list \<Rightarrow> 'p word world
     \<Rightarrow> error + 'p word world" where
  "bridge_run new [] s = Inr s"
| "bridge_run new (c # cs) s =
     (case bridge_step new c s of
        Inl e \<Rightarrow> Inl e
      | Inr s' \<Rightarrow> bridge_run new cs s')"

text \<open>\<open>native\<close> called \<open>n\<close> times on one handle; the pointers it returned, in order.\<close>

fun native_times ::
  "nat \<Rightarrow> ('r::len) word \<Rightarrow> ('p::len) word world
     \<Rightarrow> error + (shared_ptr list \<times> 'p word world)" where
  "native_times 0 ptr s = Inr ([], s)"
| "native_times (Suc n) ptr s =
     (case native ptr s of
        Inl e \<Rightarrow> Inl e
      | Inr (sp, s') \<Rightarrow>
          (case native_times n ptr s' of
             Inl e \<Rightarrow> Inl e
           | Inr (sps, s'') \<Rightarrow> Inr (sp # sps, s'')))"

subsection \<open>A concrete machine\<close>

text \<open>
  A 32-bit target whose \<open>VRO_REF\<close> is 64 bits wide, with a three-slot arena whose
  first slot lies in the upper half of the address space, and one portal, number 7,
  that the engine holds once.
\<close>

definition arena32 :: "32 word allocator" where
  "arena32 = arena_new [0x80000010, 0x80000020, 0x80000030]"

definition world0 :: "32 word world" where
  "world0 = \<lparr>heap = Map.empty, use_count = (\<lambda>_. 0)(7 := 1)\<rparr>"

text \<open>The same machine with room for one holder only.\<close>

definition arena1 :: "32 word allocator" where
  "arena1 = arena_new [0x80000010]"

text \<open>The same machine after \<open>jptr\<close> has wrapped portal 7 once, and twice.\<close>

definition world1 :: "32 word world" where
  "world1 = \<lparr>heap = [0x80000010 \<mapsto> PersistentRef (Some 7)],
             use_count = (\<lambda>_. 0)(7 := 2)\<rparr>"

definition world2 :: "32 word world" where
  "world2 = \<lparr>heap = [0x80000010 \<mapsto> PersistentRef (Some 7),
                     0x80000020 \<mapsto> PersistentRef (Some 7)],
             use_count = (\<lambda>_. 0)(7 := 3)\<rparr>"

section \<open>Properties\<close>

subsection \<open>Basic facts\<close>

lemma cast_round_trip:
  "LENGTH('p::len) \<le> LENGTH('r::len) \<Longrightarrow> ucast (scast (a :: 'p word) :: 'r word) = a"
  by (rule bit_word_eqI) (auto simp: bit_simps)

lemma scast_inject:
  assumes "LENGTH('p::len) \<le> LENGTH('r::len)"
    and "(scast (a :: 'p word) :: 'r word) = scast b"
  shows "a = b"
proof -
  have "ucast (scast a :: 'r word) = (ucast (scast b :: 'r word) :: 'p word)"
    using assms(2) by simp
  then show ?thesis
    using assms(1) by (simp add: cast_round_trip)
qed

lemma arena_new_ok: "operator_new_ok (arena_new slots)"
  unfolding operator_new_ok_def arena_new_def
  by (auto simp: find_Some_iff)

lemma arena32_ok: "operator_new_ok arena32"
  unfolding arena32_def by (rule arena_new_ok)

lemma heap_shared_ptr_copy [simp]: "heap (shared_ptr_copy sp s) = heap s"
  by (simp add: shared_ptr_copy_def split: option.splits)

lemma heap_shared_ptr_destroy [simp]: "heap (shared_ptr_destroy sp s) = heap s"
  by (simp add: shared_ptr_destroy_def split: option.splits)

lemma shared_ptr_destroy_copy [simp]: "shared_ptr_destroy sp (shared_ptr_copy sp s) = s"
  by (cases sp) (simp_all add: shared_ptr_destroy_def shared_ptr_copy_def)

lemma use_count_shared_ptr_copy:
  "use_count (shared_ptr_copy sp s) x = use_count s x + (if sp = Some x then 1 else 0)"
  by (cases sp) (simp_all add: shared_ptr_copy_def)

lemma jptr_Inr_iff:
  "jptr new sp s = Inr (h, s') \<longleftrightarrow>
     (\<exists>a. new (heap s) = Some a \<and> h = scast a \<and>
          s' = shared_ptr_copy sp (s\<lparr>heap := (heap s)(a \<mapsto> PersistentRef sp)\<rparr>))"
  by (auto simp: jptr_def new_PersistentRef_def split: option.splits)

lemma jptr_Inl_iff:
  "jptr new sp s = Inl e \<longleftrightarrow> new (heap s) = None \<and> e = bad_alloc"
  by (auto simp: jptr_def new_PersistentRef_def split: option.splits)

lemma native_Inr_iff:
  "native h s = Inr (sp, s') \<longleftrightarrow>
     (\<exists>r. heap s (ucast h) = Some r \<and> sp = persistentPtr r \<and> s' = shared_ptr_copy sp s)"
  by (auto simp: native_def PersistentRef_get_def split: option.splits)

lemma native_Inl_iff:
  "native h s = Inl e \<longleftrightarrow> heap s (ucast h) = None \<and> e = undefined_behaviour"
  by (auto simp: native_def PersistentRef_get_def split: option.splits)

subsection \<open>Round trip\<close>

text \<open>
  Claim C1. For every non-empty shared pointer \<open>S\<close> to a portal \<open>x\<close>, wrapping and then
  unwrapping gives back a shared pointer to the same portal: whenever the allocation
  succeeds, \<open>jptr\<close> returns a handle, and \<open>native\<close> of that handle in the state \<open>jptr\<close>
  left returns \<open>Some x\<close>. The handle may be wider than the pointer.
\<close>

theorem jptr_native_round_trip:
  fixes new :: "('p::len) word allocator" and s :: "'p word world"
  assumes "LENGTH('p) \<le> LENGTH('r::len)"
    and "new (heap s) = Some a"
  shows "\<exists>(h :: 'r word) s'.
           jptr new (Some x) s = Inr (h, s') \<and>
           native h s' = Inr (Some x, shared_ptr_copy (Some x) s')"
  using assms
  by (simp add: jptr_Inr_iff native_Inr_iff cast_round_trip)

theorem jptr_native_round_trip_witness:
  "LENGTH(32) \<le> LENGTH(64) \<and> arena32 (heap world0) = Some 0x80000010 \<and>
   (\<exists>(h :: 64 word) s'.
      jptr arena32 (Some 7) world0 = Inr (h, s') \<and>
      native h s' = Inr (Some 7, shared_ptr_copy (Some 7) s'))"
proof -
  have a: "arena32 (heap world0) = Some 0x80000010"
    by (simp add: arena32_def arena_new_def world0_def)
  have l: "LENGTH(32) \<le> LENGTH(64)"
    by simp
  show ?thesis
    using a l
      jptr_native_round_trip [where 'p = 32 and 'r = 64 and new = arena32 and s = world0
        and a = "0x80000010" and x = 7]
    by simp
qed

subsection \<open>What a sequence of bridge calls keeps\<close>

lemma use_count_shared_ptr_destroy:
  "use_count (shared_ptr_destroy sp s) x = use_count s x - (if sp = Some x then 1 else 0)"
  by (cases sp) (simp_all add: shared_ptr_destroy_def)

lemma bridge_step_heap:
  assumes "operator_new_ok new"
    and "bridge_step new c s = Inr s'"
    and "heap s a = Some r"
  shows "heap s' a = Some r"
proof (cases c)
  case (Wrap sp)
  with assms(2) obtain b where b: "new (heap s) = Some b"
    and s': "s' = shared_ptr_copy sp (s\<lparr>heap := (heap s)(b \<mapsto> PersistentRef sp)\<rparr>)"
    by (auto simp: jptr_Inr_iff split: sum.splits)
  from assms(1) b have "heap s b = None"
    by (simp add: operator_new_ok_def)
  with assms(3) have "b \<noteq> a"
    by auto
  with s' assms(3) show ?thesis
    by simp
next
  case (Unwrap h)
  with assms(2,3) show ?thesis
    by (auto simp: native_Inr_iff split: sum.splits)
qed

lemma bridge_step_use_count:
  assumes "bridge_step new c s = Inr s'"
  shows "use_count s x \<le> use_count s' x"
proof (cases c)
  case (Wrap sp)
  with assms show ?thesis
    by (auto simp: jptr_Inr_iff use_count_shared_ptr_copy split: sum.splits)
next
  case (Unwrap h)
  with assms show ?thesis
    by (auto simp: native_Inr_iff use_count_shared_ptr_copy split: sum.splits)
qed

lemma bridge_run_heap:
  "operator_new_ok new \<Longrightarrow> bridge_run new cs s = Inr s' \<Longrightarrow> heap s a = Some r
     \<Longrightarrow> heap s' a = Some r"
proof (induction cs arbitrary: s)
  case Nil
  then show ?case by simp
next
  case (Cons c cs)
  from Cons.prems(2) obtain t where t: "bridge_step new c s = Inr t"
    and run: "bridge_run new cs t = Inr s'"
    by (auto split: sum.splits)
  from bridge_step_heap [OF Cons.prems(1) t Cons.prems(3)] have "heap t a = Some r" .
  with Cons.IH [OF Cons.prems(1) run] show ?case .
qed

lemma bridge_run_use_count:
  "bridge_run new cs s = Inr s' \<Longrightarrow> use_count s x \<le> use_count s' x"
proof (induction cs arbitrary: s)
  case Nil
  then show ?case by simp
next
  case (Cons c cs)
  from Cons.prems obtain t where t: "bridge_step new c s = Inr t"
    and run: "bridge_run new cs t = Inr s'"
    by (auto split: sum.splits)
  from bridge_step_use_count [OF t] Cons.IH [OF run] show ?case
    by (rule order_trans)
qed

lemma arena1_ok: "operator_new_ok arena1"
  unfolding arena1_def by (rule arena_new_ok)

lemma arena32_world0: "arena32 (heap world0) = Some 0x80000010"
  by (simp add: arena32_def arena_new_def world0_def)

lemma arena32_world1: "arena32 (heap world1) = Some 0x80000020"
  by (simp add: arena32_def arena_new_def world1_def)

lemma jptr_world0:
  "jptr arena32 (Some 7) world0 = Inr (0xFFFFFFFF80000010 :: 64 word, world1)"
  by (simp add: jptr_def new_PersistentRef_def arena32_world0 shared_ptr_copy_def)
     (simp add: world0_def world1_def numeral_2_eq_2)

lemma jptr_arena1_world0:
  "jptr arena1 (Some 7) world0 = Inr (0xFFFFFFFF80000010 :: 64 word, world1)"
  by (simp add: jptr_def new_PersistentRef_def arena1_def arena_new_def shared_ptr_copy_def
      world0_def)
     (simp add: world1_def numeral_2_eq_2)

lemma live_world1:
  "heap world1 (ucast (0xFFFFFFFF80000010 :: 64 word)) = Some (PersistentRef (Some 7))"
  by (simp add: world1_def)

lemma jptr_world1:
  "jptr arena32 (Some 7) world1 = Inr (0xFFFFFFFF80000020 :: 64 word, world2)"
  by (simp add: jptr_def new_PersistentRef_def arena32_world1 shared_ptr_copy_def)
     (simp add: world1_def world2_def fun_upd_twist numeral_3_eq_3 numeral_2_eq_2)

lemma jptr_fresh:
  fixes new :: "('p::len) word allocator" and s :: "'p word world" and h h' :: "('r::len) word"
  assumes "LENGTH('p) \<le> LENGTH('r)"
    and "operator_new_ok new"
    and "heap s (ucast h') = Some r"
    and "jptr new sp s = Inr (h, s')"
  shows "h \<noteq> h'"
proof
  assume eq: "h = h'"
  from assms(4) obtain a where a: "new (heap s) = Some a" and h: "h = scast a"
    by (auto simp: jptr_Inr_iff)
  from assms(2) a have "heap s a = None"
    by (simp add: operator_new_ok_def)
  moreover from h eq assms(1) have "ucast h' = a"
    by (simp add: cast_round_trip)
  ultimately show False
    using assms(3) by simp
qed

lemma jptr_holder:
  fixes new :: "('p::len) word allocator" and s :: "'p word world" and h :: "('r::len) word"
  assumes "LENGTH('p) \<le> LENGTH('r)"
    and "jptr new sp s = Inr (h, s')"
  shows "heap s' (ucast h) = Some (PersistentRef sp)"
  using assms by (auto simp: jptr_Inr_iff cast_round_trip)

lemma jptr_heap_other:
  assumes "operator_new_ok new"
    and "jptr new sp s = Inr (h, s')"
    and "heap s b = Some r"
  shows "heap s' b = Some r"
proof -
  from assms(2) obtain a where a: "new (heap s) = Some a"
    and s': "s' = shared_ptr_copy sp (s\<lparr>heap := (heap s)(a \<mapsto> PersistentRef sp)\<rparr>)"
    by (auto simp: jptr_Inr_iff)
  from assms(1) a have "heap s a = None"
    by (simp add: operator_new_ok_def)
  with assms(3) have "a \<noteq> b"
    by auto
  with s' assms(3) show ?thesis
    by simp
qed

lemma jptr_use_count:
  "jptr new sp s = Inr (h, s') \<Longrightarrow>
     use_count s' x = use_count s x + (if sp = Some x then 1 else 0)"
  by (auto simp: jptr_Inr_iff use_count_shared_ptr_copy)

lemma native_live:
  "heap s (ucast h) = Some (PersistentRef sp) \<Longrightarrow> native h s = Inr (sp, shared_ptr_copy sp s)"
  by (simp add: native_Inr_iff)

lemma release_live:
  fixes s :: "('p::len) word world" and h h' :: "('r::len) word"
  assumes "heap s (ucast h) = Some (PersistentRef sp)"
    and "heap s (ucast h') = Some (PersistentRef sp')"
    and "ucast h \<noteq> (ucast h' :: 'p word)"
    and "\<And>x. sp' = Some x \<Longrightarrow> sp = Some x \<Longrightarrow> 2 \<le> use_count s x"
    and "\<And>x. sp' = Some x \<Longrightarrow> 1 \<le> use_count s x"
  shows "\<exists>t. release h s = Inr t \<and> native h' t = Inr (sp', shared_ptr_copy sp' t) \<and>
             (\<forall>x. sp' = Some x \<longrightarrow> alive t x)"
proof -
  let ?t = "shared_ptr_destroy sp (s\<lparr>heap := (heap s)(ucast h := None)\<rparr>)"
  have r: "release h s = Inr ?t"
    using assms(1) by (simp add: release_def)
  have "heap ?t (ucast h') = Some (PersistentRef sp')"
    using assms(2,3) by simp
  then have n: "native h' ?t = Inr (sp', shared_ptr_copy sp' ?t)"
    by (rule native_live)
  have "alive ?t x" if "sp' = Some x" for x
  proof (cases "sp = Some x")
    case True
    with assms(4) [OF that] show ?thesis
      by (simp add: alive_def use_count_shared_ptr_destroy)
  next
    case False
    with assms(5) [OF that] show ?thesis
      by (simp add: alive_def use_count_shared_ptr_destroy)
  qed
  with r n show ?thesis
    by blast
qed

subsection \<open>Fresh handles\<close>

text \<open>
  Claim C2. Every call to \<open>jptr\<close> returns a handle distinct from the handle of any other
  live holder. Take two calls of \<open>jptr\<close>, on the same portal or on two portals, with any
  bridge calls in between and no release: the two handles differ (and the second
  differs from every handle whose holder is live when it is made), both unwrap to what
  was wrapped, and each keeps its portal alive on its own: after the release of either
  handle the other one still unwraps and its portal is alive. For one portal wrapped
  twice the use count has grown by at least two.
\<close>

theorem jptr_handles_distinct:
  fixes new :: "('p::len) word allocator" and s0 :: "'p word world"
    and h1 h2 :: "('r::len) word" and cs :: "'r word bridge_call list"
  assumes len: "LENGTH('p) \<le> LENGTH('r)"
    and ok: "operator_new_ok new"
    and w1: "jptr new sp1 s0 = Inr (h1, s1)"
    and run: "bridge_run new cs s1 = Inr s2"
    and w2: "jptr new sp2 s2 = Inr (h2, s3)"
  shows "h1 \<noteq> h2 \<and>
         (\<forall>(h' :: 'r word) r. heap s2 (ucast h') = Some r \<longrightarrow> h2 \<noteq> h') \<and>
         native h1 s3 = Inr (sp1, shared_ptr_copy sp1 s3) \<and>
         native h2 s3 = Inr (sp2, shared_ptr_copy sp2 s3) \<and>
         (\<forall>x. sp1 = Some x \<and> sp2 = Some x \<longrightarrow> use_count s0 x + 2 \<le> use_count s3 x) \<and>
         (\<exists>s4. release h1 s3 = Inr s4 \<and> native h2 s4 = Inr (sp2, shared_ptr_copy sp2 s4) \<and>
               (\<forall>x. sp2 = Some x \<longrightarrow> alive s4 x)) \<and>
         (\<exists>s4. release h2 s3 = Inr s4 \<and> native h1 s4 = Inr (sp1, shared_ptr_copy sp1 s4) \<and>
               (\<forall>x. sp1 = Some x \<longrightarrow> alive s4 x))"
proof -
  have l1: "heap s1 (ucast h1) = Some (PersistentRef sp1)"
    using len w1 by (rule jptr_holder)
  have l2: "heap s2 (ucast h1) = Some (PersistentRef sp1)"
    using ok run l1 by (rule bridge_run_heap)
  have ne: "h2 \<noteq> h1"
    using len ok l2 w2 by (rule jptr_fresh)
  have h1: "heap s3 (ucast h1) = Some (PersistentRef sp1)"
    using ok w2 l2 by (rule jptr_heap_other)
  have h2: "heap s3 (ucast h2) = Some (PersistentRef sp2)"
    using len w2 by (rule jptr_holder)
  have addr: "ucast h1 \<noteq> (ucast h2 :: 'p word)"
  proof
    assume "ucast h1 = (ucast h2 :: 'p word)"
    moreover from w1 w2 obtain a b :: "'p word" where "h1 = scast a" "h2 = scast b"
      by (auto simp: jptr_Inr_iff)
    ultimately show False
      using ne len by (simp add: cast_round_trip)
  qed
  have c1: "use_count s1 x = use_count s0 x + (if sp1 = Some x then 1 else 0)" for x
    using w1 by (rule jptr_use_count)
  have c2: "use_count s1 x \<le> use_count s2 x" for x
    using run by (rule bridge_run_use_count)
  have c3: "use_count s3 x = use_count s2 x + (if sp2 = Some x then 1 else 0)" for x
    using w2 by (rule jptr_use_count)
  have both: "use_count s0 x + 2 \<le> use_count s3 x" if "sp1 = Some x" "sp2 = Some x" for x
    using c1 [of x] c2 [of x] c3 [of x] that by simp
  have one1: "1 \<le> use_count s3 x" if "sp1 = Some x" for x
    using c1 [of x] c2 [of x] c3 [of x] that by simp
  have one2: "1 \<le> use_count s3 x" if "sp2 = Some x" for x
    using c3 [of x] that by simp
  have two: "2 \<le> use_count s3 x" if "sp1 = Some x" "sp2 = Some x" for x
    using both [OF that] by simp
  have r1: "\<exists>s4. release h1 s3 = Inr s4 \<and> native h2 s4 = Inr (sp2, shared_ptr_copy sp2 s4) \<and>
               (\<forall>x. sp2 = Some x \<longrightarrow> alive s4 x)"
    using h1 h2 addr two one2 by (intro release_live) auto
  have r2: "\<exists>s4. release h2 s3 = Inr s4 \<and> native h1 s4 = Inr (sp1, shared_ptr_copy sp1 s4) \<and>
               (\<forall>x. sp1 = Some x \<longrightarrow> alive s4 x)"
    using h1 h2 addr [symmetric] two one1 by (intro release_live) auto
  have any: "h2 \<noteq> h'" if "heap s2 (ucast h') = Some r" for h' :: "'r word" and r
    using len ok that w2 by (rule jptr_fresh)
  from ne any native_live [OF h1] native_live [OF h2] both r1 r2 show ?thesis
    by (intro conjI) auto
qed

theorem jptr_handles_distinct_witness:
  "LENGTH(32) \<le> LENGTH(64) \<and> operator_new_ok arena32 \<and>
   jptr arena32 (Some 7) world0 = Inr (0xFFFFFFFF80000010 :: 64 word, world1) \<and>
   bridge_run arena32 ([] :: 64 word bridge_call list) world1 = Inr world1 \<and>
   jptr arena32 (Some 7) world1 = Inr (0xFFFFFFFF80000020 :: 64 word, world2) \<and>
   (0xFFFFFFFF80000010 :: 64 word) \<noteq> 0xFFFFFFFF80000020 \<and>
   native (0xFFFFFFFF80000010 :: 64 word) world2 = Inr (Some 7, shared_ptr_copy (Some 7) world2) \<and>
   native (0xFFFFFFFF80000020 :: 64 word) world2 = Inr (Some 7, shared_ptr_copy (Some 7) world2) \<and>
   use_count world0 7 + 2 \<le> use_count world2 7 \<and>
   (\<exists>s4. release (0xFFFFFFFF80000010 :: 64 word) world2 = Inr s4 \<and>
         native (0xFFFFFFFF80000020 :: 64 word) s4 = Inr (Some 7, shared_ptr_copy (Some 7) s4) \<and>
         alive s4 7) \<and>
   (\<exists>s4. release (0xFFFFFFFF80000020 :: 64 word) world2 = Inr s4 \<and>
         native (0xFFFFFFFF80000010 :: 64 word) s4 = Inr (Some 7, shared_ptr_copy (Some 7) s4) \<and>
         alive s4 7)"
proof -
  have l: "LENGTH(32) \<le> LENGTH(64)"
    by simp
  have run: "bridge_run arena32 ([] :: 64 word bridge_call list) world1 = Inr world1"
    by simp
  show ?thesis
    using l arena32_ok jptr_world0 run jptr_world1
      jptr_handles_distinct [OF l arena32_ok jptr_world0 run jptr_world1]
    by simp
qed

subsection \<open>The effect of wrapping\<close>

text \<open>
  Claim C3. A call of \<open>jptr\<close> on a portal \<open>x\<close> allocates exactly one object, the new
  holder, at an address that was free, stores the pointer to \<open>x\<close> in it, adds exactly
  one to the use count of \<open>x\<close>, and changes nothing else: every other address of the
  heap and every other use count is as before.
\<close>

theorem jptr_effect:
  fixes new :: "('p::len) word allocator" and s :: "'p word world"
  assumes ok: "operator_new_ok new"
    and a: "new (heap s) = Some a"
  shows "\<exists>s'. jptr new (Some x) s = Inr (scast a :: ('r::len) word, s') \<and>
           heap s a = None \<and>
           heap s' a = Some (PersistentRef (Some x)) \<and>
           (\<forall>b. b \<noteq> a \<longrightarrow> heap s' b = heap s b) \<and>
           dom (heap s') - dom (heap s) = {a} \<and>
           dom (heap s) \<subseteq> dom (heap s') \<and>
           (finite (dom (heap s)) \<longrightarrow> card (dom (heap s')) = card (dom (heap s)) + 1) \<and>
           use_count s' x = use_count s x + 1 \<and>
           (\<forall>y. y \<noteq> x \<longrightarrow> use_count s' y = use_count s y) \<and>
           s' = s\<lparr>heap := (heap s)(a \<mapsto> PersistentRef (Some x)),
                   use_count := (use_count s)(x := use_count s x + 1)\<rparr>"
proof -
  let ?s' = "s\<lparr>heap := (heap s)(a \<mapsto> PersistentRef (Some x)),
                use_count := (use_count s)(x := use_count s x + 1)\<rparr>"
  have free: "heap s a = None"
    using ok a by (simp add: operator_new_ok_def)
  then have nd: "a \<notin> dom (heap s)"
    by (simp add: domIff)
  have j: "jptr new (Some x) s = Inr (scast a :: 'r word, ?s')"
    using a by (simp add: jptr_def new_PersistentRef_def shared_ptr_copy_def)
  have d: "dom (heap ?s') = insert a (dom (heap s))"
    by simp
  have "dom (heap ?s') - dom (heap s) = {a}"
    using nd d by auto
  moreover have "finite (dom (heap s)) \<longrightarrow> card (dom (heap ?s')) = card (dom (heap s)) + 1"
    using nd d by simp
  moreover have "dom (heap s) \<subseteq> dom (heap ?s')"
    using d by auto
  ultimately show ?thesis
    using j free by (intro exI [of _ ?s']) simp
qed

theorem jptr_effect_witness:
  "operator_new_ok arena32 \<and> arena32 (heap world1) = Some 0x80000020 \<and>
   jptr arena32 (Some 7) world1 = Inr (0xFFFFFFFF80000020 :: 64 word, world2) \<and>
   heap world1 0x80000020 = None \<and>
   heap world2 0x80000020 = Some (PersistentRef (Some 7)) \<and>
   heap world2 0x80000010 = heap world1 0x80000010 \<and>
   dom (heap world2) - dom (heap world1) = {0x80000020} \<and>
   card (dom (heap world2)) = card (dom (heap world1)) + 1 \<and>
   use_count world1 7 = 2 \<and> use_count world2 7 = 3 \<and>
   use_count world2 8 = use_count world1 8"
proof -
  have fin: "finite (dom (heap world1))"
    by (simp add: world1_def)
  from jptr_effect [OF arena32_ok arena32_world1, where 'r = 64 and x = 7]
  obtain s' where j: "jptr arena32 (Some 7) world1 = Inr (scast (0x80000020 :: 32 word) :: 64 word, s')"
    and rest: "heap world1 0x80000020 = None"
      "heap s' 0x80000020 = Some (PersistentRef (Some 7))"
      "\<forall>b. b \<noteq> 0x80000020 \<longrightarrow> heap s' b = heap world1 b"
      "dom (heap s') - dom (heap world1) = {0x80000020}"
      "finite (dom (heap world1)) \<longrightarrow> card (dom (heap s')) = card (dom (heap world1)) + 1"
      "use_count s' 7 = use_count world1 7 + 1"
      "\<forall>y. y \<noteq> 7 \<longrightarrow> use_count s' y = use_count world1 y"
    by blast
  from j jptr_world1 have s': "s' = world2"
    by simp
  have c: "use_count world1 7 = 2"
    by (simp add: world1_def)
  show ?thesis
    using arena32_ok arena32_world1 jptr_world1 rest fin c unfolding s' by simp
qed

subsection \<open>No error path\<close>

text \<open>
  Claim C4. A handle that \<open>jptr\<close> produced and that has not been released (whatever
  bridge calls came in between) always unwraps: \<open>native\<close> returns the pointer that was
  wrapped. Neither function checks its input or raises an error of its own: \<open>jptr\<close>
  returns a handle for every pointer, empty or not, whenever \<open>operator new\<close> returns an
  address, and the only way it does not return is that \<open>operator new\<close> itself has no
  memory; \<open>native\<close> reads whatever holder is at the address, and does not return a
  value only where no holder lives there, which the precondition excludes.
\<close>

theorem native_succeeds_on_live_handle:
  fixes new :: "('p::len) word allocator" and s0 :: "'p word world"
    and h :: "('r::len) word" and cs :: "'r word bridge_call list"
  assumes len: "LENGTH('p) \<le> LENGTH('r)"
    and ok: "operator_new_ok new"
    and w: "jptr new sp s0 = Inr (h, s1)"
    and run: "bridge_run new cs s1 = Inr s"
  shows "native h s = Inr (sp, shared_ptr_copy sp s) \<and>
         (\<forall>sp' a. new (heap s) = Some a \<longrightarrow>
            (\<exists>(h' :: 'r word) s'. jptr new sp' s = Inr (h', s'))) \<and>
         (\<forall>sp' e. jptr new sp' s = (Inl e :: error + ('r word \<times> 'p word world)) \<longrightarrow>
            e = bad_alloc \<and> new (heap s) = None) \<and>
         (\<forall>(h' :: 'r word) e. native h' s = Inl e \<longrightarrow>
            e = undefined_behaviour \<and> heap s (ucast h') = None)"
proof -
  have "heap s1 (ucast h) = Some (PersistentRef sp)"
    using len w by (rule jptr_holder)
  with ok run have "heap s (ucast h) = Some (PersistentRef sp)"
    by (rule bridge_run_heap)
  then have "native h s = Inr (sp, shared_ptr_copy sp s)"
    by (rule native_live)
  then show ?thesis
    by (simp add: jptr_Inr_iff jptr_Inl_iff native_Inl_iff)
qed

theorem native_succeeds_on_live_handle_witness:
  "LENGTH(32) \<le> LENGTH(64) \<and> operator_new_ok arena32 \<and>
   jptr arena32 (Some 7) world0 = Inr (0xFFFFFFFF80000010 :: 64 word, world1) \<and>
   bridge_run arena32 [Wrap (Some 7) :: 64 word bridge_call] world1 = Inr world2 \<and>
   native (0xFFFFFFFF80000010 :: 64 word) world2 = Inr (Some 7, shared_ptr_copy (Some 7) world2) \<and>
   arena32 (heap world2) = Some 0x80000030 \<and>
   (\<exists>(h' :: 64 word) s'. jptr arena32 None world2 = Inr (h', s')) \<and>
   native (0 :: 64 word) world2 = Inl undefined_behaviour \<and>
   heap world2 (ucast (0 :: 64 word)) = None \<and>
   operator_new_ok arena1 \<and>
   jptr arena1 (Some 7) world0 = Inr (0xFFFFFFFF80000010 :: 64 word, world1) \<and>
   bridge_run arena1 ([] :: 64 word bridge_call list) world1 = Inr world1 \<and>
   jptr arena1 (Some 7) world1 = (Inl bad_alloc :: error + (64 word \<times> 32 word world)) \<and>
   arena1 (heap world1) = None"
proof -
  have l: "LENGTH(32) \<le> LENGTH(64)"
    by simp
  have run: "bridge_run arena32 [Wrap (Some 7) :: 64 word bridge_call] world1 = Inr world2"
    by (simp add: jptr_world1)
  have a: "arena32 (heap world2) = Some 0x80000030"
    by (simp add: arena32_def arena_new_def world2_def)
  have u: "native (0 :: 64 word) world2 = Inl undefined_behaviour"
    by (simp add: native_def PersistentRef_get_def world2_def)
  have run1: "bridge_run arena1 ([] :: 64 word bridge_call list) world1 = Inr world1"
    by simp
  have b: "jptr arena1 (Some 7) world1 = (Inl bad_alloc :: error + (64 word \<times> 32 word world))"
    by (simp add: jptr_def new_PersistentRef_def arena1_def arena_new_def world1_def)
  show ?thesis
    using l arena32_ok jptr_world0 run a u arena1_ok jptr_arena1_world0 run1 b
      native_succeeds_on_live_handle [OF l arena32_ok jptr_world0 run]
      native_succeeds_on_live_handle [OF l arena1_ok jptr_arena1_world0 run1]
    by blast
qed

subsection \<open>Unwrapping leaves the holder alone\<close>

text \<open>
  Claim C5. A handle \<open>h\<close> is valid when a live holder is at the address it converts to;
  let \<open>sp\<close> be the pointer that holder stores. Then \<open>native h\<close> returns a new shared
  pointer to the same portal, one more in its use count, and writes no holder: the heap
  is the same. Destroying the returned pointer restores the state before the call
  exactly, and the handle unwraps again as before.
\<close>

theorem native_frame:
  fixes s :: "('p::len) word world" and h :: "('r::len) word"
  assumes len: "LENGTH('p) \<le> LENGTH('r)"
    and live: "heap s (ucast h) = Some (PersistentRef sp)"
  shows "\<exists>s'. native h s = Inr (sp, s') \<and>
           heap s' = heap s \<and>
           (\<forall>x. use_count s' x = use_count s x + (if sp = Some x then 1 else 0)) \<and>
           shared_ptr_destroy sp s' = s \<and>
           heap (shared_ptr_destroy sp s') (ucast h) = Some (PersistentRef sp) \<and>
           native h (shared_ptr_destroy sp s') = Inr (sp, s')"
proof -
  have n: "native h s = Inr (sp, shared_ptr_copy sp s)"
    using live by (rule native_live)
  show ?thesis
    using n live by (intro exI [of _ "shared_ptr_copy sp s"]) (simp add: use_count_shared_ptr_copy)
qed

theorem native_frame_witness:
  "LENGTH(32) \<le> LENGTH(64) \<and>
   heap world1 (ucast (0xFFFFFFFF80000010 :: 64 word)) = Some (PersistentRef (Some 7)) \<and>
   (\<exists>s'. native (0xFFFFFFFF80000010 :: 64 word) world1 = Inr (Some 7, s') \<and>
      heap s' = heap world1 \<and>
      (\<forall>x. use_count s' x = use_count world1 x + (if Some 7 = Some x then 1 else 0)) \<and>
      shared_ptr_destroy (Some 7) s' = world1 \<and>
      heap (shared_ptr_destroy (Some 7) s') (ucast (0xFFFFFFFF80000010 :: 64 word))
        = Some (PersistentRef (Some 7)) \<and>
      native (0xFFFFFFFF80000010 :: 64 word) (shared_ptr_destroy (Some 7) s') = Inr (Some 7, s'))"
proof -
  have l: "LENGTH(32) \<le> LENGTH(64)"
    by simp
  show ?thesis
    using l live_world1 native_frame [OF l live_world1] by blast
qed

subsection \<open>Counts only grow\<close>

text \<open>
  Claim C6. No sequence of \<open>jptr\<close> and \<open>native\<close> calls lowers a use count, destroys a
  portal or removes a holder: after any such sequence every use count is at least what
  it was, every portal that was alive is alive, and every holder is where it was with
  the pointer it had.
\<close>

theorem bridge_run_never_decrements:
  fixes new :: "('p::len) word allocator" and s :: "'p word world"
    and cs :: "('r::len) word bridge_call list"
  assumes ok: "operator_new_ok new"
    and run: "bridge_run new cs s = Inr s'"
  shows "(\<forall>x. use_count s x \<le> use_count s' x) \<and>
         (\<forall>x. alive s x \<longrightarrow> alive s' x) \<and>
         (\<forall>a r. heap s a = Some r \<longrightarrow> heap s' a = Some r)"
proof -
  have c: "use_count s x \<le> use_count s' x" for x
    using run by (rule bridge_run_use_count)
  have "alive s' x" if "alive s x" for x
    using c [of x] that by (simp add: alive_def)
  moreover have "heap s' a = Some r" if "heap s a = Some r" for a r
    using ok run that by (rule bridge_run_heap)
  ultimately show ?thesis
    using c by blast
qed

theorem bridge_run_never_decrements_witness:
  "operator_new_ok arena32 \<and>
   bridge_run arena32 [Unwrap (0xFFFFFFFF80000010 :: 64 word), Wrap (Some 7)] world1
     = Inr (shared_ptr_copy (Some 7) world2) \<and>
   use_count world1 7 = 2 \<and> use_count (shared_ptr_copy (Some 7) world2) 7 = 4 \<and>
   use_count world1 7 \<le> use_count (shared_ptr_copy (Some 7) world2) 7 \<and>
   alive world1 7 \<and> alive (shared_ptr_copy (Some 7) world2) 7 \<and>
   heap world1 0x80000010 = Some (PersistentRef (Some 7)) \<and>
   heap (shared_ptr_copy (Some 7) world2) 0x80000010 = Some (PersistentRef (Some 7))"
proof -
  have j: "jptr arena32 (Some 7) (shared_ptr_copy (Some 7) world1)
      = Inr (0xFFFFFFFF80000020 :: 64 word, shared_ptr_copy (Some 7) world2)"
    by (simp add: jptr_def new_PersistentRef_def arena32_world1)
      (simp add: shared_ptr_copy_def world1_def world2_def fun_upd_twist)
  have run: "bridge_run arena32 [Unwrap (0xFFFFFFFF80000010 :: 64 word), Wrap (Some 7)] world1
     = Inr (shared_ptr_copy (Some 7) world2)"
    by (simp add: native_live [OF live_world1] j)
  have c: "use_count world1 7 = 2 \<and> use_count (shared_ptr_copy (Some 7) world2) 7 = 4"
    by (simp add: world1_def world2_def shared_ptr_copy_def)
  have al: "alive world1 7"
    using c by (simp add: alive_def)
  have h: "heap world1 0x80000010 = Some (PersistentRef (Some 7))"
    by (simp add: world1_def)
  show ?thesis
    using arena32_ok run c al h bridge_run_never_decrements [OF arena32_ok run] by blast
qed

subsection \<open>Determinism and effects\<close>

lemma native_twice:
  assumes "heap s (ucast h) = Some (PersistentRef sp)"
  shows "native h s = Inr (sp, shared_ptr_copy sp s) \<and>
         native h (shared_ptr_copy sp s) = Inr (sp, shared_ptr_copy sp (shared_ptr_copy sp s))"
  using assms by (simp add: native_live)

text \<open>
  Claim C7, as stated, fails for \<open>jptr\<close>: it is not a pure function of its argument.
  On the concrete machine, wrapping portal 7 and then wrapping portal 7 again gives two
  different handles, and the first call has changed the use count of the portal.
\<close>

theorem jptr_twice_counterexample:
  "jptr arena32 (Some 7) world0 = Inr (0xFFFFFFFF80000010 :: 64 word, world1) \<and>
   jptr arena32 (Some 7) world1 = Inr (0xFFFFFFFF80000020 :: 64 word, world2) \<and>
   (0xFFFFFFFF80000010 :: 64 word) \<noteq> 0xFFFFFFFF80000020 \<and>
   use_count world0 7 = 1 \<and> use_count world1 7 = 2"
  by (simp add: jptr_world0 jptr_world1) (simp add: world0_def world1_def)

text \<open>
  Claim C7, amended. Both functions return under well-formed input (\<open>native\<close> on the
  handle of a live holder, \<open>jptr\<close> whenever the allocation succeeds), and their only
  effects are the one allocation of \<open>jptr\<close> and one more use of the portal referred to.
  Running \<open>native\<close> twice on the same live handle returns the same pointer both times;
  running \<open>jptr\<close> twice on the same pointer returns two different handles.
\<close>

theorem bridge_effects_and_repetition:
  fixes new :: "('p::len) word allocator" and s :: "'p word world" and h :: "('r::len) word"
  assumes len: "LENGTH('p) \<le> LENGTH('r)"
    and ok: "operator_new_ok new"
  shows "(heap s (ucast h) = Some (PersistentRef sp) \<longrightarrow>
            (\<exists>s1 s2. native h s = Inr (sp, s1) \<and> native h s1 = Inr (sp, s2) \<and>
               heap s1 = heap s \<and> heap s2 = heap s \<and>
               (\<forall>x. use_count s1 x = use_count s x + (if sp = Some x then 1 else 0)))) \<and>
         (new (heap s) = Some a \<longrightarrow>
            (\<exists>(h1 :: 'r word) s1. jptr new sp s = Inr (h1, s1) \<and>
               heap s1 = (heap s)(a \<mapsto> PersistentRef sp) \<and> heap s a = None \<and>
               (\<forall>x. use_count s1 x = use_count s x + (if sp = Some x then 1 else 0)) \<and>
               (\<forall>(h2 :: 'r word) s2. jptr new sp s1 = Inr (h2, s2) \<longrightarrow> h2 \<noteq> h1)))"
proof (intro conjI impI)
  assume live: "heap s (ucast h) = Some (PersistentRef sp)"
  from native_twice [OF live]
  show "\<exists>s1 s2. native h s = Inr (sp, s1) \<and> native h s1 = Inr (sp, s2) \<and>
          heap s1 = heap s \<and> heap s2 = heap s \<and>
          (\<forall>x. use_count s1 x = use_count s x + (if sp = Some x then 1 else 0))"
    by (intro exI [of _ "shared_ptr_copy sp s"]
        exI [of _ "shared_ptr_copy sp (shared_ptr_copy sp s)"])
      (simp add: use_count_shared_ptr_copy)
next
  assume a: "new (heap s) = Some a"
  let ?s1 = "shared_ptr_copy sp (s\<lparr>heap := (heap s)(a \<mapsto> PersistentRef sp)\<rparr>)"
  have j: "jptr new sp s = Inr (scast a :: 'r word, ?s1)"
    using a by (simp add: jptr_Inr_iff)
  have free: "heap s a = None"
    using ok a by (simp add: operator_new_ok_def)
  have live: "heap ?s1 (ucast (scast a :: 'r word)) = Some (PersistentRef sp)"
    using len j by (rule jptr_holder)
  have fresh: "h2 \<noteq> scast a" if "jptr new sp ?s1 = Inr (h2 :: 'r word, s2)" for h2 s2
    using len ok live that by (rule jptr_fresh)
  show "\<exists>(h1 :: 'r word) s1. jptr new sp s = Inr (h1, s1) \<and>
          heap s1 = (heap s)(a \<mapsto> PersistentRef sp) \<and> heap s a = None \<and>
          (\<forall>x. use_count s1 x = use_count s x + (if sp = Some x then 1 else 0)) \<and>
          (\<forall>(h2 :: 'r word) s2. jptr new sp s1 = Inr (h2, s2) \<longrightarrow> h2 \<noteq> h1)"
    using j free fresh
    by (intro exI [of _ "scast a :: 'r word"] exI [of _ ?s1])
      (auto simp: use_count_shared_ptr_copy)
qed

theorem bridge_effects_and_repetition_witness:
  "LENGTH(32) \<le> LENGTH(64) \<and> operator_new_ok arena32 \<and>
   heap world1 (ucast (0xFFFFFFFF80000010 :: 64 word)) = Some (PersistentRef (Some 7)) \<and>
   (\<exists>s1 s2. native (0xFFFFFFFF80000010 :: 64 word) world1 = Inr (Some 7, s1) \<and>
      native (0xFFFFFFFF80000010 :: 64 word) s1 = Inr (Some 7, s2) \<and>
      heap s1 = heap world1 \<and> heap s2 = heap world1 \<and>
      use_count s1 7 = use_count world1 7 + 1) \<and>
   arena32 (heap world0) = Some 0x80000010 \<and>
   jptr arena32 (Some 7) world0 = Inr (0xFFFFFFFF80000010 :: 64 word, world1) \<and>
   heap world1 = (heap world0)(0x80000010 \<mapsto> PersistentRef (Some 7)) \<and>
   heap world0 0x80000010 = None \<and>
   use_count world1 7 = use_count world0 7 + 1 \<and>
   jptr arena32 (Some 7) world1 = Inr (0xFFFFFFFF80000020 :: 64 word, world2) \<and>
   (0xFFFFFFFF80000020 :: 64 word) \<noteq> 0xFFFFFFFF80000010"
proof -
  have l: "LENGTH(32) \<le> LENGTH(64)"
    by simp
  note n = bridge_effects_and_repetition [OF l arena32_ok, where s = world1
        and h = "0xFFFFFFFF80000010 :: 64 word" and sp = "Some 7" and a = "0x80000020",
        THEN conjunct1, rule_format, OF live_world1]
  note w = bridge_effects_and_repetition [OF l arena32_ok, where s = world0
        and h = "0 :: 64 word" and sp = "Some 7" and a = "0x80000010",
        THEN conjunct2, rule_format, OF arena32_world0]
  from w obtain h1 :: "64 word" and s1 where j: "jptr arena32 (Some 7) world0 = Inr (h1, s1)"
    and hp: "heap s1 = (heap world0)(0x80000010 \<mapsto> PersistentRef (Some 7))"
    and fr: "heap world0 0x80000010 = None"
    and uc: "\<forall>x. use_count s1 x = use_count world0 x + (if Some 7 = Some x then 1 else 0)"
    and ne: "\<forall>(h2 :: 64 word) s2. jptr arena32 (Some 7) s1 = Inr (h2, s2) \<longrightarrow> h2 \<noteq> h1"
    by blast
  from j jptr_world0 have eq: "h1 = 0xFFFFFFFF80000010" "s1 = world1"
    by simp_all
  from ne jptr_world1 have d: "(0xFFFFFFFF80000020 :: 64 word) \<noteq> 0xFFFFFFFF80000010"
    unfolding eq by blast
  from uc have u: "use_count world1 7 = use_count world0 7 + 1"
    unfolding eq by simp
  from n have n': "\<exists>s1 s2. native (0xFFFFFFFF80000010 :: 64 word) world1 = Inr (Some 7, s1) \<and>
      native (0xFFFFFFFF80000010 :: 64 word) s1 = Inr (Some 7, s2) \<and>
      heap s1 = heap world1 \<and> heap s2 = heap world1 \<and>
      use_count s1 7 = use_count world1 7 + 1"
    by auto
  show ?thesis
    using l arena32_ok live_world1 n' arena32_world0 jptr_world0 hp fr u jptr_world1 d
    unfolding eq by blast
qed

subsection \<open>The empty pointer\<close>

text \<open>
  Claim C8. \<open>jptr\<close> accepts the empty shared pointer like any other: whenever the
  allocation succeeds it returns a handle, and \<open>native\<close> of that handle returns the
  empty pointer. No use count changes on the way.
\<close>

theorem jptr_native_empty:
  fixes new :: "('p::len) word allocator" and s :: "'p word world"
  assumes len: "LENGTH('p) \<le> LENGTH('r::len)"
    and a: "new (heap s) = Some a"
  shows "\<exists>(h :: 'r word) s'.
           jptr new None s = Inr (h, s') \<and>
           native h s' = Inr (None, s') \<and>
           heap s' = (heap s)(a \<mapsto> PersistentRef None) \<and>
           use_count s' = use_count s"
  using assms
  by (simp add: jptr_Inr_iff native_Inr_iff cast_round_trip shared_ptr_copy_def)

theorem jptr_native_empty_witness:
  "LENGTH(32) \<le> LENGTH(64) \<and> arena32 (heap world1) = Some 0x80000020 \<and>
   (\<exists>(h :: 64 word) s'.
      jptr arena32 None world1 = Inr (h, s') \<and>
      native h s' = Inr (None, s') \<and>
      heap s' = (heap world1)(0x80000020 \<mapsto> PersistentRef None) \<and>
      use_count s' = use_count world1)"
proof -
  have l: "LENGTH(32) \<le> LENGTH(64)"
    by simp
  show ?thesis
    using l arena32_world1
      jptr_native_empty [where 'p = 32 and 'r = 64 and new = arena32 and s = world1
        and a = "0x80000020"]
    by blast
qed

subsection \<open>Unwrapping again and again\<close>

lemma use_count_copy_funpow:
  "use_count ((shared_ptr_copy sp ^^ n) s) x = use_count s x + (if sp = Some x then n else 0)"
  by (induction n) (simp_all add: use_count_shared_ptr_copy)

lemma heap_copy_funpow: "heap ((shared_ptr_copy sp ^^ n) s) = heap s"
  by (induction n) simp_all

lemma native_times_eq:
  "heap s (ucast h) = Some (PersistentRef sp) \<Longrightarrow>
     native_times n h s = Inr (replicate n sp, (shared_ptr_copy sp ^^ n) s)"
proof (induction n arbitrary: s)
  case 0
  then show ?case by simp
next
  case (Suc n)
  have n: "native h s = Inr (sp, shared_ptr_copy sp s)"
    using Suc.prems by (rule native_live)
  have "heap (shared_ptr_copy sp s) (ucast h) = Some (PersistentRef sp)"
    using Suc.prems by simp
  from Suc.IH [OF this] n show ?case
    by (simp add: funpow_swap1)
qed

text \<open>
  Claim C9. On a handle that converts to the address of a live holder, which stores
  \<open>sp\<close>, \<open>native\<close> can be called any number of times: \<open>n\<close> calls return \<open>sp\<close> \<open>n\<close> times, add \<open>n\<close> to the use count of its
  portal and to no other, leave every holder as it was, and the handle unwraps once
  more afterwards.
\<close>

theorem native_repeatable:
  fixes s :: "('p::len) word world" and h :: "('r::len) word"
  assumes len: "LENGTH('p) \<le> LENGTH('r)"
    and live: "heap s (ucast h) = Some (PersistentRef sp)"
  shows "\<exists>s'. native_times n h s = Inr (replicate n sp, s') \<and>
           heap s' = heap s \<and>
           (\<forall>x. use_count s' x = use_count s x + (if sp = Some x then n else 0)) \<and>
           native h s' = Inr (sp, shared_ptr_copy sp s')"
proof -
  let ?s' = "(shared_ptr_copy sp ^^ n) s"
  have "heap ?s' (ucast h) = Some (PersistentRef sp)"
    using live by (simp add: heap_copy_funpow)
  then have "native h ?s' = Inr (sp, shared_ptr_copy sp ?s')"
    by (rule native_live)
  with native_times_eq [OF live, of n] show ?thesis
    by (intro exI [of _ ?s']) (simp add: heap_copy_funpow use_count_copy_funpow)
qed

theorem native_repeatable_witness:
  "LENGTH(32) \<le> LENGTH(64) \<and>
   heap world1 (ucast (0xFFFFFFFF80000010 :: 64 word)) = Some (PersistentRef (Some 7)) \<and>
   (\<exists>s'. native_times 3 (0xFFFFFFFF80000010 :: 64 word) world1
            = Inr (replicate 3 (Some 7), s') \<and>
      heap s' = heap world1 \<and>
      (\<forall>x. use_count s' x = use_count world1 x + (if Some 7 = Some x then 3 else 0)) \<and>
      native (0xFFFFFFFF80000010 :: 64 word) s' = Inr (Some 7, shared_ptr_copy (Some 7) s'))"
proof -
  have l: "LENGTH(32) \<le> LENGTH(64)"
    by simp
  show ?thesis
    using l live_world1 native_repeatable [OF l live_world1, of 3] by blast
qed

subsection \<open>The handle is never zero\<close>

text \<open>
  Claim C10. For every pointer, empty or not, the handle that \<open>jptr\<close> returns is not
  zero: \<open>operator new\<close> does not return the null pointer, and the conversion to a
  \<open>VRO_REF\<close> that is at least as wide as a pointer maps no other address to zero.
\<close>

theorem jptr_nonzero:
  fixes new :: "('p::len) word allocator" and s :: "'p word world"
  assumes len: "LENGTH('p) \<le> LENGTH('r::len)"
    and ok: "operator_new_ok new"
    and a: "new (heap s) = Some a"
  shows "\<exists>(h :: 'r word) s'. jptr new sp s = Inr (h, s') \<and> h \<noteq> 0"
proof -
  from ok a have "a \<noteq> 0"
    by (simp add: operator_new_ok_def)
  moreover have "(scast (0 :: 'p word) :: 'r word) = 0"
    by simp
  ultimately have "(scast a :: 'r word) \<noteq> 0"
    using scast_inject [OF len, of a 0] by auto
  with a show ?thesis
    by (simp add: jptr_Inr_iff)
qed

theorem jptr_nonzero_witness:
  "LENGTH(32) \<le> LENGTH(64) \<and> operator_new_ok arena32 \<and>
   arena32 (heap world0) = Some 0x80000010 \<and>
   (\<exists>(h :: 64 word) s'. jptr arena32 None world0 = Inr (h, s') \<and> h \<noteq> 0)"
proof -
  have l: "LENGTH(32) \<le> LENGTH(64)"
    by simp
  show ?thesis
    using l arena32_ok arena32_world0 jptr_nonzero [OF l arena32_ok arena32_world0] by blast
qed

end
